theory Spec2Isabelle
  imports Complex_Main
begin

chapter \<open>The page behaviour of script.js as functions\<close>

text \<open>
  The repository has two source files: \<^verbatim>\<open>script.js\<close> and a second file that holds the same
  script with another theme toggle block. The hover, equalizer, focus and lazy loading
  blocks are the same text in both files and are modelled once. The theme toggle is
  modelled twice: names ending in \<open>_script\<close> follow \<^verbatim>\<open>script.js\<close>, names ending in
  \<open>_part\<close> follow the second file.
\<close>

section \<open>Lazy image loader\<close>

text \<open>
  The fourth block of \<^verbatim>\<open>script.js\<close> (identical in the second source file).
  An image element is reduced to the two attributes the block touches. The field
  \<open>src_writes\<close> is a counter that is not in the source: it counts the assignments to
  \<^verbatim>\<open>img.src\<close>, each of which starts a load attempt in the browser.
\<close>

record img =
  src :: "string option"
  data_src :: "string option"
  src_writes :: nat

text \<open>
  \<^verbatim>\<open>img.src = img.dataset.src\<close>. Reading \<^verbatim>\<open>dataset.src\<close> of an image without the
  attribute gives \<^verbatim>\<open>undefined\<close>, which the assignment turns into the text "undefined".
\<close>

definition assign_src :: "img \<Rightarrow> img" where
  "assign_src i =
     i\<lparr>src := Some (case data_src i of Some d \<Rightarrow> d | None \<Rightarrow> ''undefined''),
       src_writes := Suc (src_writes i)\<rparr>"

text \<open>
  The document's images are a list, an image is named by its position. The observer is
  the list of the targets it watches.
\<close>

record lazy_page =
  imgs :: "img list"
  observed :: "nat list"

text \<open>\<^verbatim>\<open>document.querySelectorAll("img[data-src]")\<close>: a static list, taken once.\<close>

definition lazyImages :: "img list \<Rightarrow> nat list" where
  "lazyImages is = filter (\<lambda>k. data_src (is ! k) \<noteq> None) [0..<length is]"

definition observe :: "nat \<Rightarrow> nat list \<Rightarrow> nat list" where
  "observe k obs = (if k \<in> set obs then obs else obs @ [k])"

definition unobserve :: "nat \<Rightarrow> nat list \<Rightarrow> nat list" where
  "unobserve k obs = removeAll k obs"

text \<open>
  The body of the block. \<open>has_IO\<close> is \<^verbatim>\<open>"IntersectionObserver" in window\<close>. Without it
  every deferred image gets its source at once and the block returns; with it a new
  observer is made and every deferred image is handed to it.
\<close>

definition lazy_init :: "bool \<Rightarrow> img list \<Rightarrow> lazy_page" where
  "lazy_init has_IO is =
     (if \<not> has_IO
      then \<lparr>imgs = foldl (\<lambda>js k. js[k := assign_src (js ! k)]) is (lazyImages is),
            observed = []\<rparr>
      else \<lparr>imgs = is, observed = foldl (\<lambda>obs k. observe k obs) [] (lazyImages is)\<rparr>)"

record entry =
  target :: nat
  isIntersecting :: bool

text \<open>The observer's callback: the body of \<^verbatim>\<open>entries.forEach\<close>, then the loop.\<close>

definition on_entry :: "lazy_page \<Rightarrow> entry \<Rightarrow> lazy_page" where
  "on_entry p e =
     (if isIntersecting e
      then p\<lparr>imgs := (imgs p)[target e := (assign_src (imgs p ! target e))\<lparr>data_src := None\<rparr>],
             observed := unobserve (target e) (observed p)\<rparr>
      else p)"

definition callback :: "entry list \<Rightarrow> lazy_page \<Rightarrow> lazy_page" where
  "callback es p = foldl on_entry p es"

text \<open>
  What the browser does is the input of the model: a run is a list of batches of
  entries, each batch one call of the callback. A batch is well formed when the targets
  it reports as intersecting are watched by the observer at the time the batch is
  delivered, and no target is reported as intersecting twice in the batch.
\<close>

definition wf_batch :: "lazy_page \<Rightarrow> entry list \<Rightarrow> bool" where
  "wf_batch p es \<longleftrightarrow>
     distinct (map target (filter isIntersecting es)) \<and>
     list_all (\<lambda>e. target e \<in> set (observed p)) (filter isIntersecting es)"

fun wf_batches :: "lazy_page \<Rightarrow> entry list list \<Rightarrow> bool" where
  "wf_batches p [] = True"
| "wf_batches p (b # bs) = (wf_batch p b \<and> wf_batches (callback b p) bs)"

fun run_batches :: "lazy_page \<Rightarrow> entry list list \<Rightarrow> lazy_page" where
  "run_batches p [] = p"
| "run_batches p (b # bs) = run_batches (callback b p) bs"

text \<open>Image \<open>k\<close> was reported as intersecting somewhere in the run.\<close>

definition reported :: "nat \<Rightarrow> entry list list \<Rightarrow> bool" where
  "reported k bs = list_ex (list_ex (\<lambda>e. target e = k \<and> isIntersecting e)) bs"

text \<open>Two abbreviations for the proofs: a batch reports image \<open>k\<close> as intersecting, and
  what the callback makes of an image.\<close>

definition touched :: "nat \<Rightarrow> entry list \<Rightarrow> bool" where
  "touched k es = list_ex (\<lambda>e. target e = k \<and> isIntersecting e) es"

definition loaded :: "img \<Rightarrow> img" where
  "loaded i = (assign_src i)\<lparr>data_src := None\<rparr>"

section \<open>Exceptions\<close>

text \<open>
  A handler that throws keeps the changes it made before the throw. A handler therefore
  returns the exception that escaped it, if any, together with the state it left.
\<close>

datatype exn = TypeError | StorageError

section \<open>Column equalizer\<close>

text \<open>
  A \<^verbatim>\<open>.col\<close> element of a module: whether it carries the classes \<^verbatim>\<open>left\<close> and
  \<^verbatim>\<open>right\<close>, and its inline \<^verbatim>\<open>style.minHeight\<close>. A module: its
  \<^verbatim>\<open>data-equalize\<close> attribute, its computed \<^verbatim>\<open>grid-template-columns\<close> and its
  \<^verbatim>\<open>.col\<close> descendants in document order.
\<close>

record col =
  col_left :: bool
  col_right :: bool
  minHeight :: string

record module =
  data_equalize :: "string option"
  gridTemplateColumns :: string
  cols :: "col list"

text \<open>\<^verbatim>\<open>Math.round\<close>: the nearest integer, a tie goes up.\<close>

definition Math_round :: "rat \<Rightarrow> int" where
  "Math_round x = \<lfloor>x + 1 / 2\<rfloor>"

text \<open>
  \<^verbatim>\<open>columnHeight\<close>. The height that \<^verbatim>\<open>getBoundingClientRect\<close> reports is the layout
  engine's: \<open>layout cs k\<close> is the height of column \<open>k\<close> when the columns carry the
  styles \<open>cs\<close>. A column that is \<^verbatim>\<open>null\<close> makes the call throw.
\<close>

definition columnHeight :: "(col list \<Rightarrow> nat \<Rightarrow> rat) \<Rightarrow> col list \<Rightarrow> nat option \<Rightarrow> exn + int" where
  "columnHeight layout cs c =
     (case c of None \<Rightarrow> Inl TypeError | Some k \<Rightarrow> Inr (Math_round (layout cs k)))"

definition clearHeights :: "module \<Rightarrow> module" where
  "clearHeights m = m\<lparr>cols := map (\<lambda>c. c\<lparr>minHeight := []\<rparr>) (cols m)\<rparr>"

text \<open>\<^verbatim>\<open>mod.querySelector\<close>: the first \<^verbatim>\<open>.col\<close> with the class, or \<^verbatim>\<open>null\<close>.\<close>

definition querySelector :: "(col \<Rightarrow> bool) \<Rightarrow> col list \<Rightarrow> nat option" where
  "querySelector cls cs = find (\<lambda>k. cls (cs ! k)) [0..<length cs]"

text \<open>\<^verbatim>\<open>toLowerCase\<close> on the letters A to Z, the only ones that can give "left".\<close>

definition lower_char :: "char \<Rightarrow> char" where
  "lower_char c =
     (let n = (of_char c :: nat) in if 65 \<le> n \<and> n \<le> 90 then char_of (n + 32) else c)"

definition toLowerCase :: "string \<Rightarrow> string" where
  "toLowerCase s = map lower_char s"

text \<open>\<^verbatim>\<open>s.split(" ")\<close>: the empty text gives one empty piece.\<close>

fun split_space :: "string \<Rightarrow> string list" where
  "split_space [] = [[]]"
| "split_space (c # cs) =
     (if c = CHR '' '' then [] # split_space cs
      else (case split_space cs of w # ws \<Rightarrow> (c # w) # ws | [] \<Rightarrow> [[c]]))"

text \<open>The decimal text of a whole number, as \<^verbatim>\<open>h + "px"\<close> writes it.\<close>

fun digits :: "nat \<Rightarrow> string" where
  "digits n =
     (if n < 10 then [char_of (48 + n)] else digits (n div 10) @ [char_of (48 + n mod 10)])"

declare digits.simps [simp del]

text \<open>The first lines of \<^verbatim>\<open>equalizeModule\<close>: the constants \<^verbatim>\<open>mode\<close> and \<^verbatim>\<open>singleColumn\<close>.\<close>

definition equalize_mode :: "module \<Rightarrow> string" where
  "equalize_mode m =
     toLowerCase (case data_equalize m of
                    None \<Rightarrow> ''right''
                  | Some a \<Rightarrow> if a = [] then ''right'' else a)"

definition singleColumn :: "module \<Rightarrow> bool" where
  "singleColumn m \<longleftrightarrow> length (split_space (gridTemplateColumns m)) = 1"

definition equalizeModule :: "(col list \<Rightarrow> nat \<Rightarrow> rat) \<Rightarrow> module \<Rightarrow> exn option \<times> module" where
  "equalizeModule layout m =
     (let mode = equalize_mode m;
          left = querySelector col_left (cols m);
          right = querySelector col_right (cols m)
      in if singleColumn m then (None, clearHeights m)
         else
           let measure = (if mode = ''left'' then left else right);
               stretch = (if mode = ''left'' then right else left);
               m1 = clearHeights m
           in case columnHeight layout (cols m1) measure of
                Inl e \<Rightarrow> (Some e, m1)
              | Inr h \<Rightarrow>
                  if h > 0
                  then (case stretch of
                          None \<Rightarrow> (Some TypeError, m1)
                        | Some j \<Rightarrow>
                            (None, m1\<lparr>cols := (cols m1)[j := (cols m1 ! j)
                                       \<lparr>minHeight := digits (nat h) @ ''px''\<rparr>]\<rparr>))
                  else (None, m1))"

section \<open>Theme toggle\<close>

text \<open>
  \<^verbatim>\<open>localStorage\<close>: the stored items, and for each operation whether it throws
  (storage disabled, privacy mode, quota).
\<close>

record localStorage =
  items :: "string \<rightharpoonup> string"
  getItem_throws :: bool
  setItem_throws :: bool
  removeItem_throws :: bool

definition getItem :: "localStorage \<Rightarrow> string \<Rightarrow> exn + string option" where
  "getItem ls k = (if getItem_throws ls then Inl StorageError else Inr (items ls k))"

definition setItem :: "localStorage \<Rightarrow> string \<Rightarrow> string \<Rightarrow> exn + localStorage" where
  "setItem ls k v =
     (if setItem_throws ls then Inl StorageError else Inr (ls\<lparr>items := (items ls)(k \<mapsto> v)\<rparr>))"

definition removeItem :: "localStorage \<Rightarrow> string \<Rightarrow> exn + localStorage" where
  "removeItem ls k =
     (if removeItem_throws ls then Inl StorageError else Inr (ls\<lparr>items := (items ls)(k := None)\<rparr>))"

text \<open>
  What the theme blocks read and write. The first four fields are what is displayed:
  the root's \<^verbatim>\<open>data-theme\<close>, the class \<^verbatim>\<open>is-dark\<close> of the body, the button's
  \<^verbatim>\<open>aria-pressed\<close> and its class \<^verbatim>\<open>is-on\<close>. \<open>mql_matches\<close> is the
  \<^verbatim>\<open>(prefers-color-scheme: dark)\<close> query. \<open>listening\<close> says that the block reached the
  calls that register its listeners.
\<close>

record theme_page =
  data_theme :: "string option"
  body_is_dark :: bool
  aria_pressed :: "string option"
  btn_is_on :: bool
  storage :: localStorage
  mql_matches :: bool
  mql_has_addEventListener :: bool
  lastTap :: int
  has_btn :: bool
  has_track :: bool
  prefers_reduced_motion :: bool
  track_is_transitioning :: bool
  pulse_timer :: bool
  listening :: bool

definition String_of_bool :: "bool \<Rightarrow> string" where
  "String_of_bool b = (if b then ''true'' else ''false'')"

subsection \<open>The block of script.js\<close>

definition STORAGE_KEY_script :: string where
  "STORAGE_KEY_script = ''theme''"

text \<open>The \<^verbatim>\<open>catch\<close> swallows what \<^verbatim>\<open>setItem\<close> throws.\<close>

definition applyTheme_script :: "string \<Rightarrow> bool \<Rightarrow> theme_page \<Rightarrow> exn option \<times> theme_page" where
  "applyTheme_script mode persist p =
     (let normalized = (if mode = ''dark'' then ''dark'' else ''light'');
          p1 = p\<lparr>data_theme := Some normalized,
                 aria_pressed := Some (String_of_bool (normalized = ''dark''))\<rparr>
      in if persist
         then (case setItem (storage p1) STORAGE_KEY_script normalized of
                 Inl err \<Rightarrow> (None, p1)
               | Inr ls \<Rightarrow> (None, p1\<lparr>storage := ls\<rparr>))
         else (None, p1))"

text \<open>The value of \<^verbatim>\<open>initial\<close> after the \<^verbatim>\<open>try\<close> statement.\<close>

definition initial_script :: "theme_page \<Rightarrow> string" where
  "initial_script p =
     (case getItem (storage p) STORAGE_KEY_script of
        Inl err \<Rightarrow> ''light''
      | Inr saved \<Rightarrow>
          (case saved of
             Some s \<Rightarrow> if s = ''dark'' \<or> s = ''light'' then s else ''light''
           | None \<Rightarrow> ''light''))"

definition pulseTrack :: "theme_page \<Rightarrow> theme_page" where
  "pulseTrack p =
     (if \<not> has_track p \<or> prefers_reduced_motion p then p
      else p\<lparr>track_is_transitioning := True, pulse_timer := True\<rparr>)"

definition pulse_timeout :: "theme_page \<Rightarrow> theme_page" where
  "pulse_timeout p = p\<lparr>track_is_transitioning := False, pulse_timer := False\<rparr>"

definition click_script :: "theme_page \<Rightarrow> exn option \<times> theme_page" where
  "click_script p =
     (let next = (if data_theme p = Some ''dark'' then ''light'' else ''dark'')
      in case applyTheme_script next True p of
           (Some e, p1) \<Rightarrow> (Some e, p1)
         | (None, p1) \<Rightarrow> (None, pulseTrack p1))"

definition init_script :: "theme_page \<Rightarrow> exn option \<times> theme_page" where
  "init_script p =
     (if \<not> has_btn p then (None, p)
      else case applyTheme_script (initial_script p) False p of
             (Some e, p1) \<Rightarrow> (Some e, p1)
           | (None, p1) \<Rightarrow> (None, p1\<lparr>listening := True\<rparr>))"

subsection \<open>The block of the second file\<close>

definition STORAGE_KEY_part :: string where
  "STORAGE_KEY_part = ''site:theme''"

definition system_theme :: "bool \<Rightarrow> string" where
  "system_theme matches = (if matches then ''dark'' else ''light'')"

definition getInitialTheme :: "theme_page \<Rightarrow> exn + string" where
  "getInitialTheme p =
     (case getItem (storage p) STORAGE_KEY_part of
        Inl e \<Rightarrow> Inl e
      | Inr saved \<Rightarrow>
          (case saved of
             Some s \<Rightarrow> if s = ''light'' \<or> s = ''dark'' then Inr s
                       else Inr (system_theme (mql_matches p))
           | None \<Rightarrow> Inr (system_theme (mql_matches p))))"

definition applyTheme_part :: "string \<Rightarrow> bool \<Rightarrow> theme_page \<Rightarrow> exn option \<times> theme_page" where
  "applyTheme_part mode save p =
     (let isDark = (mode = ''dark'');
          p1 = p\<lparr>data_theme := Some mode, body_is_dark := isDark,
                 aria_pressed := Some (String_of_bool isDark), btn_is_on := isDark\<rparr>
      in if save
         then (case setItem (storage p1) STORAGE_KEY_part mode of
                 Inl e \<Rightarrow> (Some e, p1)
               | Inr ls \<Rightarrow> (None, p1\<lparr>storage := ls\<rparr>))
         else (None, p1))"

definition click_part :: "theme_page \<Rightarrow> exn option \<times> theme_page" where
  "click_part p =
     (let current = (case data_theme p of
                       None \<Rightarrow> ''light''
                     | Some a \<Rightarrow> if a = [] then ''light'' else a);
          next = (if current = ''dark'' then ''light'' else ''dark'')
      in applyTheme_part next True p)"

text \<open>The listener of the media query; \<open>matches\<close> is \<^verbatim>\<open>e.matches\<close>.\<close>

definition change_part :: "bool \<Rightarrow> theme_page \<Rightarrow> exn option \<times> theme_page" where
  "change_part matches p =
     (case getItem (storage p) STORAGE_KEY_part of
        Inl e \<Rightarrow> (Some e, p)
      | Inr saved \<Rightarrow>
          if saved = None then applyTheme_part (system_theme matches) False p
          else (None, p))"

text \<open>The \<^verbatim>\<open>touchend\<close> listener of the button; \<open>now\<close> is \<^verbatim>\<open>Date.now()\<close>.\<close>

definition touchend_part :: "int \<Rightarrow> theme_page \<Rightarrow> exn option \<times> theme_page" where
  "touchend_part now p =
     (if now - lastTap p < 350
      then (case removeItem (storage p) STORAGE_KEY_part of
              Inl e \<Rightarrow> (Some e, p)
            | Inr ls \<Rightarrow>
                (case applyTheme_part (system_theme (mql_matches p)) False (p\<lparr>storage := ls\<rparr>) of
                   (Some e, p1) \<Rightarrow> (Some e, p1)
                 | (None, p1) \<Rightarrow> (None, p1\<lparr>lastTap := now\<rparr>)))
      else (None, p\<lparr>lastTap := now\<rparr>))"

definition init_part :: "theme_page \<Rightarrow> exn option \<times> theme_page" where
  "init_part p =
     (if \<not> has_btn p then (None, p)
      else case getInitialTheme p of
             Inl e \<Rightarrow> (Some e, p)
           | Inr t \<Rightarrow>
               (case applyTheme_part t False p of
                  (Some e, p1) \<Rightarrow> (Some e, p1)
                | (None, p1) \<Rightarrow> (None, p1\<lparr>lastTap := 0, listening := True\<rparr>)))"

subsection \<open>Events\<close>

text \<open>
  What happens to the page after initialisation: the button is activated, the system's
  colour scheme changes (to dark when the flag is set), a touch on the button ends at a
  time, the pulse's timeout runs. A change of the colour scheme updates the media query
  before any listener runs. An exception that escapes a listener is reported by the
  browser and the page goes on.
\<close>

datatype theme_event = Click | SystemChange bool | TouchEnd int | PulseTimeout

definition dispatch_script :: "theme_event \<Rightarrow> theme_page \<Rightarrow> exn option \<times> theme_page" where
  "dispatch_script ev p =
     (case ev of
        Click \<Rightarrow> if listening p then click_script p else (None, p)
      | SystemChange b \<Rightarrow> (None, p\<lparr>mql_matches := b\<rparr>)
      | TouchEnd now \<Rightarrow> (None, p)
      | PulseTimeout \<Rightarrow> if pulse_timer p then (None, pulse_timeout p) else (None, p))"

definition dispatch_part :: "theme_event \<Rightarrow> theme_page \<Rightarrow> exn option \<times> theme_page" where
  "dispatch_part ev p =
     (case ev of
        Click \<Rightarrow> if listening p then click_part p else (None, p)
      | SystemChange b \<Rightarrow>
          if listening p \<and> mql_has_addEventListener p
          then change_part b (p\<lparr>mql_matches := b\<rparr>)
          else (None, p\<lparr>mql_matches := b\<rparr>)
      | TouchEnd now \<Rightarrow> if listening p then touchend_part now p else (None, p)
      | PulseTimeout \<Rightarrow> (None, p))"

fun run_script :: "theme_page \<Rightarrow> theme_event list \<Rightarrow> theme_page" where
  "run_script p [] = p"
| "run_script p (ev # evs) = run_script (snd (dispatch_script ev p)) evs"

fun run_part :: "theme_page \<Rightarrow> theme_event list \<Rightarrow> theme_page" where
  "run_part p [] = p"
| "run_part p (ev # evs) = run_part (snd (dispatch_part ev p)) evs"

text \<open>What the page displays of the theme.\<close>

definition displayed :: "theme_page \<Rightarrow> string option \<times> bool \<times> string option \<times> bool" where
  "displayed p = (data_theme p, body_is_dark p, aria_pressed p, btn_is_on p)"

text \<open>
  The stored preference as the specification reads it: a stored text other than "light"
  and "dark" counts as no preference.
\<close>

definition stored_choice :: "localStorage \<Rightarrow> string \<Rightarrow> string option" where
  "stored_choice ls k =
     (case items ls k of
        Some s \<Rightarrow> if s = ''light'' \<or> s = ''dark'' then Some s else None
      | None \<Rightarrow> None)"

text \<open>
  A page as the markup delivers it, for the examples: the button and its track are
  there, nothing is stored and the storage works, the system prefers light.
\<close>

definition blank_page :: theme_page where
  "blank_page =
     \<lparr>data_theme = None, body_is_dark = False, aria_pressed = None, btn_is_on = False,
      storage = \<lparr>items = Map.empty, getItem_throws = False, setItem_throws = False,
                 removeItem_throws = False\<rparr>,
      mql_matches = False, mql_has_addEventListener = True, lastTap = 0, has_btn = True,
      has_track = True, prefers_reduced_motion = False, track_is_transitioning = False,
      pulse_timer = False, listening = False\<rparr>"

section \<open>Hover and focus spotlight\<close>

text \<open>
  Cards are named by numbers; \<open>cards\<close> is the list both blocks take from
  \<^verbatim>\<open>querySelectorAll(".card")\<close>. \<open>timer\<close> is the variable of the hover block: the handle
  of a timeout, or \<^verbatim>\<open>null\<close>. \<open>timeouts\<close> are the timeouts the browser holds: a handle
  and the card whose reveal it runs. \<open>active\<close> and \<open>show_caption\<close> are the cards that
  carry the class, \<open>dim_mode\<close> is the class of the body.
\<close>

record hover_page =
  cards :: "nat list"
  timer :: "nat option"
  timeouts :: "(nat \<times> nat) list"
  next_handle :: nat
  dim_mode :: bool
  active :: "nat set"
  show_caption :: "nat set"

definition hover_init :: "nat list \<Rightarrow> hover_page" where
  "hover_init cs =
     \<lparr>cards = cs, timer = None, timeouts = [], next_handle = 0, dim_mode = False,
      active = {}, show_caption = {}\<rparr>"

text \<open>\<^verbatim>\<open>setTimeout\<close> gives a handle that was never used; \<^verbatim>\<open>clearTimeout(null)\<close> does nothing.\<close>

definition mouseenter :: "nat \<Rightarrow> hover_page \<Rightarrow> hover_page" where
  "mouseenter c p =
     p\<lparr>timer := Some (next_handle p),
       timeouts := timeouts p @ [(next_handle p, c)],
       next_handle := Suc (next_handle p)\<rparr>"

definition clearTimeout :: "nat option \<Rightarrow> (nat \<times> nat) list \<Rightarrow> (nat \<times> nat) list" where
  "clearTimeout t ts = (case t of None \<Rightarrow> ts | Some h \<Rightarrow> filter (\<lambda>x. fst x \<noteq> h) ts)"

text \<open>The function given to \<^verbatim>\<open>setTimeout\<close> on entering card \<open>c\<close>.\<close>

definition reveal :: "nat \<Rightarrow> hover_page \<Rightarrow> hover_page" where
  "reveal c p =
     p\<lparr>dim_mode := True,
       active := insert c (active p - set (cards p)),
       show_caption := insert c (show_caption p - set (cards p))\<rparr>"

definition reset :: "nat \<Rightarrow> hover_page \<Rightarrow> hover_page" where
  "reset c p =
     p\<lparr>timeouts := clearTimeout (timer p) (timeouts p),
       timer := None,
       active := active p - {c},
       show_caption := show_caption p - {c},
       dim_mode := False\<rparr>"

definition keydown :: "string \<Rightarrow> hover_page \<Rightarrow> hover_page" where
  "keydown k p =
     (if k = ''Escape''
      then p\<lparr>active := active p - set (cards p),
             show_caption := show_caption p - set (cards p),
             dim_mode := False\<rparr>
      else p)"

definition focusin :: "nat \<Rightarrow> hover_page \<Rightarrow> hover_page" where
  "focusin c p =
     p\<lparr>active := insert c (active p), show_caption := insert c (show_caption p),
       dim_mode := True\<rparr>"

definition focusout :: "nat \<Rightarrow> hover_page \<Rightarrow> hover_page" where
  "focusout c p =
     p\<lparr>active := active p - {c}, show_caption := show_caption p - {c}, dim_mode := False\<rparr>"

text \<open>
  The events of the two blocks. \<open>TimerFire h\<close> is the browser running the timeout
  with handle \<open>h\<close>, which it does only while it holds it; the timeout is then gone.
  Listeners are on the elements of \<open>cards\<close> only.
\<close>

datatype hover_event =
    MouseEnter nat | MouseLeave nat | CardClick nat | CardTouchEnd nat | TouchCancel nat
  | KeyDown string | FocusIn nat | FocusOut nat | TimerFire nat

definition hover_step :: "hover_event \<Rightarrow> hover_page \<Rightarrow> hover_page" where
  "hover_step ev p =
     (case ev of
        MouseEnter c \<Rightarrow> if c \<in> set (cards p) then mouseenter c p else p
      | MouseLeave c \<Rightarrow> if c \<in> set (cards p) then reset c p else p
      | CardClick c \<Rightarrow> if c \<in> set (cards p) then reset c p else p
      | CardTouchEnd c \<Rightarrow> if c \<in> set (cards p) then reset c p else p
      | TouchCancel c \<Rightarrow> if c \<in> set (cards p) then reset c p else p
      | KeyDown k \<Rightarrow> keydown k p
      | FocusIn c \<Rightarrow> if c \<in> set (cards p) then focusin c p else p
      | FocusOut c \<Rightarrow> if c \<in> set (cards p) then focusout c p else p
      | TimerFire h \<Rightarrow>
          (case find (\<lambda>x. fst x = h) (timeouts p) of
             None \<Rightarrow> p
           | Some x \<Rightarrow> reveal (snd x) (p\<lparr>timeouts := filter (\<lambda>y. fst y \<noteq> h) (timeouts p)\<rparr>)))"

fun hover_run :: "hover_page \<Rightarrow> hover_event list \<Rightarrow> hover_page" where
  "hover_run p [] = p"
| "hover_run p (ev # evs) = hover_run (hover_step ev p) evs"

text \<open>Every pending timeout has a handle below the next one to be given out.\<close>

definition fresh_handles :: "hover_page \<Rightarrow> bool" where
  "fresh_handles p \<longleftrightarrow> list_all (\<lambda>x. fst x < next_handle p) (timeouts p)"

chapter \<open>Properties\<close>

section \<open>Lazy image loader\<close>

subsection \<open>The fallback path\<close>

lemma fallback_fold_length:
  "length (foldl (\<lambda>js k. js[k := assign_src (js ! k)]) is ks) = length is"
  by (induction ks arbitrary: "is") simp_all

lemma fallback_fold_nth:
  "distinct ks \<Longrightarrow> k < length is \<Longrightarrow>
   foldl (\<lambda>js k. js[k := assign_src (js ! k)]) is ks ! k =
     (if k \<in> set ks then assign_src (is ! k) else is ! k)"
proof (induction ks arbitrary: "is")
  case Nil
  then show ?case by simp
next
  case (Cons a ks)
  then show ?case
    by (cases "a = k") (simp_all add: nth_list_update)
qed

lemma lazyImages_set:
  "set (lazyImages is) = {k. k < length is \<and> data_src (is ! k) \<noteq> None}"
  by (auto simp: lazyImages_def)

lemma lazyImages_distinct: "distinct (lazyImages is)"
  by (simp add: lazyImages_def)

text \<open>
  C9. When intersection observation is unavailable, initialisation gives every deferred
  image its deferred source as its real source (one assignment each), leaves the
  \<^verbatim>\<open>data-src\<close> attribute of every image as it was, and leaves images without the
  attribute untouched.
\<close>

theorem fallback_assigns_and_keeps_data_src:
  assumes "\<not> has_IO" and "k < length is"
  shows "length (imgs (lazy_init has_IO is)) = length is \<and>
         data_src (imgs (lazy_init has_IO is) ! k) = data_src (is ! k) \<and>
         (case data_src (is ! k) of
            Some d \<Rightarrow> src (imgs (lazy_init has_IO is) ! k) = Some d \<and>
                      src_writes (imgs (lazy_init has_IO is) ! k) = Suc (src_writes (is ! k))
          | None \<Rightarrow> imgs (lazy_init has_IO is) ! k = is ! k)"
proof -
  have "imgs (lazy_init has_IO is) ! k =
          (if data_src (is ! k) \<noteq> None then assign_src (is ! k) else is ! k)"
    using assms
    by (simp add: lazy_init_def fallback_fold_nth lazyImages_distinct lazyImages_set)
  moreover have "length (imgs (lazy_init has_IO is)) = length is"
    using assms by (simp add: lazy_init_def fallback_fold_length)
  ultimately show ?thesis
    by (simp add: assign_src_def split: option.splits)
qed

theorem fallback_assigns_and_keeps_data_src_witness:
  "imgs (lazy_init False
     [\<lparr>src = None, data_src = Some ''a.jpg'', src_writes = 0\<rparr>,
      \<lparr>src = Some ''b.jpg'', data_src = None, src_writes = 0\<rparr>]) ! 0 =
     \<lparr>src = Some ''a.jpg'', data_src = Some ''a.jpg'', src_writes = 1\<rparr>"
proof -
  let ?is = "[\<lparr>src = None, data_src = Some ''a.jpg'', src_writes = 0\<rparr>,
      \<lparr>src = Some ''b.jpg'', data_src = None, src_writes = 0\<rparr>]"
  have n: "\<not> False" by simp
  have l: "(0::nat) < length ?is" by simp
  show ?thesis
    using fallback_assigns_and_keeps_data_src [OF n l]
    by (cases "imgs (lazy_init False ?is) ! 0") simp
qed

subsection \<open>The observer path\<close>

lemma callback_Cons: "callback (e # es) p = callback es (on_entry p e)"
  by (simp add: callback_def)

lemma callback_step:
  "wf_batch p es \<Longrightarrow> set (observed p) \<subseteq> {k. k < length (imgs p)} \<Longrightarrow>
   length (imgs (callback es p)) = length (imgs p) \<and>
   set (observed (callback es p)) = set (observed p) - {k. touched k es} \<and>
   (\<forall>k < length (imgs p). imgs (callback es p) ! k =
       (if touched k es then loaded (imgs p ! k) else imgs p ! k))"
proof (induction es arbitrary: p)
  case Nil
  then show ?case by (simp add: callback_def touched_def)
next
  case (Cons e es)
  let ?p = "on_entry p e"
  have tc: "touched k (e # es) \<longleftrightarrow> (target e = k \<and> isIntersecting e) \<or> touched k es" for k
    by (simp add: touched_def)
  show ?case
  proof (cases "isIntersecting e")
    case False
    then have same: "?p = p"
      by (simp add: on_entry_def)
    have wf: "wf_batch p es"
      using Cons.prems(1) False by (simp add: wf_batch_def)
    show ?thesis
      unfolding callback_Cons same using Cons.IH [OF wf Cons.prems(2)] False
      by (simp add: tc)
  next
    case True
    have t: "target e \<in> set (observed p)"
      "target e \<notin> target ` set (filter isIntersecting es)"
      using Cons.prems(1) True by (simp_all add: wf_batch_def)
    have len: "length (imgs ?p) = length (imgs p)"
      by (simp add: on_entry_def)
    have obs: "set (observed ?p) = set (observed p) - {target e}"
      using True by (auto simp: on_entry_def unobserve_def)
    have other: "target e' \<noteq> target e" if "e' \<in> set es" "isIntersecting e'" for e'
    proof
      assume "target e' = target e"
      moreover have "e' \<in> set (filter isIntersecting es)"
        using that by simp
      ultimately have "target e \<in> target ` set (filter isIntersecting es)"
        by (metis imageI)
      with t(2) show False by simp
    qed
    have wf: "wf_batch ?p es"
    proof -
      have d: "distinct (map target (filter isIntersecting es))"
        using Cons.prems(1) True by (simp add: wf_batch_def)
      have "target e' \<in> set (observed ?p)" if "e' \<in> set (filter isIntersecting es)" for e'
      proof -
        have "target e' \<in> set (observed p)"
          using Cons.prems(1) True that by (simp add: wf_batch_def list_all_iff)
        moreover have "target e' \<noteq> target e"
          using other that by simp
        ultimately show ?thesis
          unfolding obs by simp
      qed
      with d show ?thesis
        unfolding wf_batch_def list_all_iff by blast
    qed
    have sub: "set (observed ?p) \<subseteq> {k. k < length (imgs ?p)}"
      using Cons.prems(2) obs len by auto
    note IH = Cons.IH [OF wf sub]
    have nt: "\<not> touched (target e) es"
      unfolding touched_def list_ex_iff using other by blast
    have nth: "imgs ?p ! k = (if target e = k then loaded (imgs p ! k) else imgs p ! k)"
      if "k < length (imgs p)" for k
      using that True by (simp add: on_entry_def loaded_def nth_list_update)
    have c1: "length (imgs (callback es ?p)) = length (imgs p)"
      using IH len by simp
    have c2: "set (observed (callback es ?p)) = set (observed p) - {k. touched k (e # es)}"
    proof -
      have "set (observed (callback es ?p)) = set (observed ?p) - {k. touched k es}"
        using IH by simp
      also have "\<dots> = set (observed p) - {k. touched k (e # es)}"
        unfolding obs tc using True by auto
      finally show ?thesis .
    qed
    have c3: "imgs (callback es ?p) ! k =
         (if touched k (e # es) then loaded (imgs p ! k) else imgs p ! k)"
      if k: "k < length (imgs p)" for k
    proof -
      have "imgs (callback es ?p) ! k =
              (if touched k es then loaded (imgs ?p ! k) else imgs ?p ! k)"
        using IH k len by simp
      then show ?thesis
        using nt True by (cases "target e = k") (simp_all add: nth [OF k] tc)
    qed
    show ?thesis
      unfolding callback_Cons using c1 c2 c3 by blast
  qed
qed

lemma touched_observed:
  "wf_batch p es \<Longrightarrow> touched k es \<Longrightarrow> k \<in> set (observed p)"
  unfolding wf_batch_def touched_def list_all_iff list_ex_iff
  by auto

lemma reported_observed:
  "wf_batches p bs \<Longrightarrow> set (observed p) \<subseteq> {k. k < length (imgs p)} \<Longrightarrow>
   reported k bs \<Longrightarrow> k \<in> set (observed p)"
proof (induction bs arbitrary: p)
  case Nil
  then show ?case by (simp add: reported_def)
next
  case (Cons b bs)
  let ?p = "callback b p"
  have wfb: "wf_batch p b" and wfr: "wf_batches ?p bs"
    using Cons.prems(1) by simp_all
  note S = callback_step [OF wfb Cons.prems(2)]
  have sub: "set (observed ?p) \<subseteq> {k. k < length (imgs ?p)}"
    using S Cons.prems(2) by auto
  from Cons.prems(3) have "touched k b \<or> reported k bs"
    by (simp add: reported_def touched_def)
  then show ?case
  proof
    assume "touched k b"
    then show ?thesis using wfb by (rule touched_observed [rotated])
  next
    assume "reported k bs"
    then have "k \<in> set (observed ?p)" using Cons.IH [OF wfr sub] by simp
    then show ?thesis using S by simp
  qed
qed

lemma run_batches_step:
  "wf_batches p bs \<Longrightarrow> set (observed p) \<subseteq> {k. k < length (imgs p)} \<Longrightarrow>
   length (imgs (run_batches p bs)) = length (imgs p) \<and>
   set (observed (run_batches p bs)) = set (observed p) - {k. reported k bs} \<and>
   (\<forall>k < length (imgs p). imgs (run_batches p bs) ! k =
       (if reported k bs then loaded (imgs p ! k) else imgs p ! k))"
proof (induction bs arbitrary: p)
  case Nil
  then show ?case by (simp add: reported_def)
next
  case (Cons b bs)
  let ?p = "callback b p"
  have wfb: "wf_batch p b" and wfr: "wf_batches ?p bs"
    using Cons.prems(1) by simp_all
  note S = callback_step [OF wfb Cons.prems(2)]
  have sub: "set (observed ?p) \<subseteq> {k. k < length (imgs ?p)}"
    using S Cons.prems(2) by auto
  note IH = Cons.IH [OF wfr sub]
  have rc: "reported k (b # bs) \<longleftrightarrow> touched k b \<or> reported k bs" for k
    by (simp add: reported_def touched_def)
  have excl: "\<not> (touched k b \<and> reported k bs)" for k
  proof
    assume a: "touched k b \<and> reported k bs"
    then have "k \<notin> set (observed ?p)" using S by simp
    moreover have "k \<in> set (observed ?p)"
      using reported_observed [OF wfr sub] a by simp
    ultimately show False by simp
  qed
  have c1: "length (imgs (run_batches ?p bs)) = length (imgs p)"
    using IH S by simp
  have c2: "set (observed (run_batches ?p bs)) = set (observed p) - {k. reported k (b # bs)}"
  proof -
    have "set (observed (run_batches ?p bs)) = set (observed ?p) - {k. reported k bs}"
      using IH by simp
    also have "\<dots> = set (observed p) - {k. touched k b} - {k. reported k bs}"
      using S by simp
    also have "\<dots> = set (observed p) - {k. reported k (b # bs)}"
      unfolding rc by auto
    finally show ?thesis .
  qed
  have c3: "imgs (run_batches ?p bs) ! k =
       (if reported k (b # bs) then loaded (imgs p ! k) else imgs p ! k)"
    if k: "k < length (imgs p)" for k
  proof -
    have "imgs (run_batches ?p bs) ! k = (if reported k bs then loaded (imgs ?p ! k) else imgs ?p ! k)"
      using IH k S by simp
    moreover have "imgs ?p ! k = (if touched k b then loaded (imgs p ! k) else imgs p ! k)"
      using S k by simp
    ultimately show ?thesis
      using excl [of k] by (simp add: rc)
  qed
  show ?case
    unfolding run_batches.simps using c1 c2 c3 by blast
qed

lemma observe_fold_set: "set (foldl (\<lambda>obs k. observe k obs) acc ks) = set acc \<union> set ks"
  by (induction ks arbitrary: acc) (auto simp: observe_def)

text \<open>
  What the observer path does on well-formed batches: after any run of them, a deferred
  image that was never reported as intersecting is exactly as the markup left it (it has
  not received its deferred source) and is still observed; one that was reported has its
  deferred source as its source, no \<^verbatim>\<open>data-src\<close> attribute, is no longer observed, and
  its source was assigned exactly once.
\<close>

lemma lazy_one_shot:
  assumes "wf_batches (lazy_init True is) bs" and "k < length is" and "data_src (is ! k) = Some d"
  shows "(if reported k bs
          then src (imgs (run_batches (lazy_init True is) bs) ! k) = Some d \<and>
               data_src (imgs (run_batches (lazy_init True is) bs) ! k) = None \<and>
               src_writes (imgs (run_batches (lazy_init True is) bs) ! k) = Suc (src_writes (is ! k)) \<and>
               k \<notin> set (observed (run_batches (lazy_init True is) bs))
          else imgs (run_batches (lazy_init True is) bs) ! k = is ! k \<and>
               k \<in> set (observed (run_batches (lazy_init True is) bs)))"
proof -
  let ?p = "lazy_init True is"
  have i: "imgs ?p = is" and o: "set (observed ?p) = set (lazyImages is)"
    by (simp_all add: lazy_init_def observe_fold_set)
  have sub: "set (observed ?p) \<subseteq> {k. k < length (imgs ?p)}"
    unfolding i o by (auto simp: lazyImages_set)
  have ko: "k \<in> set (observed ?p)"
    unfolding o using assms(2,3) by (simp add: lazyImages_set)
  note R = run_batches_step [OF assms(1) sub, unfolded i]
  show ?thesis
    using R assms(2,3) ko by (simp add: loaded_def assign_src_def)
qed

lemma lazy_one_shot_example:
  "src (imgs (run_batches
      (lazy_init True [\<lparr>src = None, data_src = Some ''a.jpg'', src_writes = 0\<rparr>,
                       \<lparr>src = None, data_src = Some ''b.jpg'', src_writes = 0\<rparr>])
      [[\<lparr>target = 0, isIntersecting = True\<rparr>, \<lparr>target = 1, isIntersecting = False\<rparr>]]) ! 0)
     = Some ''a.jpg'' \<and>
   src_writes (imgs (run_batches
      (lazy_init True [\<lparr>src = None, data_src = Some ''a.jpg'', src_writes = 0\<rparr>,
                       \<lparr>src = None, data_src = Some ''b.jpg'', src_writes = 0\<rparr>])
      [[\<lparr>target = 0, isIntersecting = True\<rparr>, \<lparr>target = 1, isIntersecting = False\<rparr>]]) ! 0)
     = 1"
proof -
  let ?is = "[\<lparr>src = None, data_src = Some ''a.jpg'', src_writes = 0\<rparr>,
              \<lparr>src = None, data_src = Some ''b.jpg'', src_writes = 0\<rparr>]"
  let ?bs = "[[\<lparr>target = 0, isIntersecting = True\<rparr>, \<lparr>target = 1, isIntersecting = False\<rparr>]]"
  have up: "[0..<2] = [0, Suc 0]"
    by (simp add: upt_rec)
  have wf: "wf_batches (lazy_init True ?is) ?bs"
    by (simp add: lazy_init_def lazyImages_def observe_def wf_batch_def up)
  have k: "(0::nat) < length ?is" by simp
  have d: "data_src (?is ! 0) = Some ''a.jpg''" by simp
  have r: "reported 0 ?bs" by (simp add: reported_def)
  show ?thesis
    using lazy_one_shot [OF wf k d] r by simp
qed

text \<open>
  C8. The callback does not look whether an image still carries \<^verbatim>\<open>data-src\<close>, and
  \<^verbatim>\<open>unobserve\<close> cannot take back entries that are already in the batch. One deferred
  image, and one call of the callback whose batch holds three entries for it (it came
  into view, left and came back before the callback ran): the first entry assigns the
  deferred source and removes the attribute, the third assigns the source a second time,
  now the text "undefined". The image has had two load attempts, not one.
\<close>

theorem lazy_reentry_in_one_batch_loads_twice:
  "run_batches (lazy_init True [\<lparr>src = None, data_src = Some ''a.jpg'', src_writes = 0\<rparr>])
     [[\<lparr>target = 0, isIntersecting = True\<rparr>, \<lparr>target = 0, isIntersecting = False\<rparr>,
       \<lparr>target = 0, isIntersecting = True\<rparr>]] =
   \<lparr>imgs = [\<lparr>src = Some ''undefined'', data_src = None, src_writes = 2\<rparr>], observed = []\<rparr>"
  by (simp add: callback_def on_entry_def assign_src_def unobserve_def lazy_init_def
      lazyImages_def observe_def)

section \<open>Column equalizer\<close>

lemma querySelector_Some:
  "querySelector cls cs = Some k \<Longrightarrow> k < length cs \<and> cls (cs ! k)"
  by (auto simp: querySelector_def find_Some_iff)

lemma Math_round_nearest:
  "rat_of_int (Math_round x) - 1 / 2 \<le> x \<and> x < rat_of_int (Math_round x) + 1 / 2"
  unfolding Math_round_def by linarith

lemma clearHeights_minHeight:
  "map minHeight (cols (clearHeights m)) = map (\<lambda>c. []) (cols m)"
  by (simp add: clearHeights_def)

text \<open>
  What \<^verbatim>\<open>equalizeModule\<close> leaves, in terms of its two constants \<^verbatim>\<open>mode\<close> and
  \<^verbatim>\<open>singleColumn\<close>.
\<close>

lemma equalizeModule_result:
  assumes "querySelector col_left (cols m) = Some l"
      and "querySelector col_right (cols m) = Some r"
  shows "if singleColumn m
         then fst (equalizeModule layout m) = None \<and>
              map minHeight (cols (snd (equalizeModule layout m))) = map (\<lambda>c. []) (cols m)
         else (let measure = (if equalize_mode m = ''left'' then l else r);
                   stretch = (if equalize_mode m = ''left'' then r else l);
                   x = layout (cols (clearHeights m)) measure;
                   h = Math_round x
               in fst (equalizeModule layout m) = None \<and>
                  rat_of_int h - 1 / 2 \<le> x \<and> x < rat_of_int h + 1 / 2 \<and>
                  stretch < length (cols m) \<and>
                  map minHeight (cols (snd (equalizeModule layout m))) =
                    (map (\<lambda>c. []) (cols m))
                      [stretch := (if h > 0 then digits (nat h) @ ''px'' else [])])"
proof (cases "singleColumn m")
  case True
  then show ?thesis
    by (simp add: equalizeModule_def clearHeights_minHeight)
next
  case False
  note L = querySelector_Some [OF assms(1)] and R = querySelector_Some [OF assms(2)]
  define mi where "mi = (if equalize_mode m = ''left'' then l else r)"
  define sj where "sj = (if equalize_mode m = ''left'' then r else l)"
  define m1 where "m1 = clearHeights m"
  define x where "x = layout (cols m1) mi"
  define h where "h = Math_round x"
  have sel: "(if equalize_mode m = ''left'' then querySelector col_left (cols m)
              else querySelector col_right (cols m)) = Some mi"
       "(if equalize_mode m = ''left'' then querySelector col_right (cols m)
              else querySelector col_left (cols m)) = Some sj"
    using assms by (simp_all add: mi_def sj_def)
  have E: "equalizeModule layout m =
       (if h > 0
        then (None, m1\<lparr>cols := (cols m1)[sj := (cols m1 ! sj)\<lparr>minHeight := digits (nat h) @ ''px''\<rparr>]\<rparr>)
        else (None, m1))"
    unfolding equalizeModule_def Let_def sel columnHeight_def
    using False by (simp add: m1_def h_def x_def)
  have sj: "sj < length (cols m)"
    using L R by (simp add: sj_def)
  have near: "rat_of_int h - 1 / 2 \<le> x \<and> x < rat_of_int h + 1 / 2"
    unfolding h_def by (rule Math_round_nearest)
  have c0: "map minHeight (cols m1) = map (\<lambda>c. []) (cols m)"
    unfolding m1_def by (rule clearHeights_minHeight)
  have upd: "(map (\<lambda>c. []) (cols m))[sj := []] = map (\<lambda>c. []) (cols m)"
    using sj by (simp add: list_update_same_conv)
  have M: "map minHeight (cols (snd (equalizeModule layout m))) =
             (map (\<lambda>c. []) (cols m))[sj := (if h > 0 then digits (nat h) @ ''px'' else [])]"
  proof (cases "h > 0")
    case True
    then show ?thesis
      by (simp add: E map_update c0)
  next
    case False
    then show ?thesis
      by (simp add: E c0 upd)
  qed
  have F: "fst (equalizeModule layout m) = None"
    by (simp add: E)
  show ?thesis
    using False F near sj M
    unfolding Let_def mi_def [symmetric] sj_def [symmetric] m1_def [symmetric] x_def [symmetric] h_def [symmetric]
    by simp
qed


text \<open>The two constants in terms of the attribute and of the computed style.\<close>

lemma split_space_length:
  "length (split_space s) = Suc (length (filter (\<lambda>c. c = CHR '' '') s))"
proof (induction s)
  case Nil
  then show ?case by simp
next
  case (Cons c s)
  then have "split_space s \<noteq> []" by auto
  then obtain w ws where w: "split_space s = w # ws"
    by (cases "split_space s") auto
  with Cons show ?case by simp
qed

lemma singleColumn_iff: "singleColumn m \<longleftrightarrow> CHR '' '' \<notin> set (gridTemplateColumns m)"
  by (auto simp: singleColumn_def split_space_length filter_empty_conv)

lemma toLowerCase_left: "toLowerCase ''left'' = ''left''"
  by code_simp

lemma toLowerCase_right: "toLowerCase ''right'' = ''right''"
  by code_simp

lemma equalize_mode_left: "data_equalize m = Some ''left'' \<Longrightarrow> equalize_mode m = ''left''"
  by (simp add: equalize_mode_def toLowerCase_left)

lemma equalize_mode_right:
  "data_equalize m = None \<or> data_equalize m = Some ''right'' \<Longrightarrow> equalize_mode m = ''right''"
  by (auto simp: equalize_mode_def toLowerCase_right)

text \<open>
  C4. For a module that has a left and a right column. The module counts as rendered in
  a single column exactly when its computed \<^verbatim>\<open>grid-template-columns\<close> has no space, that
  is, one track; the mode is "left" when \<^verbatim>\<open>data-equalize\<close> is "left", and "right" when
  the attribute is "right" or absent. Rendered in a single column, \<^verbatim>\<open>equalizeModule\<close>
  leaves every column without a minimum height. Rendered in two columns, it measures the
  configured column (the left one in mode "left", the right one otherwise) after every
  minimum height of the module was cleared, rounds the height to the nearest whole number
  \<open>h\<close>, and leaves the other column with the minimum height \<open>h\<close> in pixels when \<open>h\<close>
  is positive, and every other column (the measured one too) without a minimum height.
  No exception escapes.
\<close>

theorem equalizeModule_postcondition:
  assumes "querySelector col_left (cols m) = Some l"
      and "querySelector col_right (cols m) = Some r"
  shows "(singleColumn m \<longleftrightarrow> CHR '' '' \<notin> set (gridTemplateColumns m)) \<and>
         (data_equalize m = Some ''left'' \<longrightarrow> equalize_mode m = ''left'') \<and>
         (data_equalize m = None \<or> data_equalize m = Some ''right'' \<longrightarrow>
            equalize_mode m = ''right'') \<and>
         (if singleColumn m
          then fst (equalizeModule layout m) = None \<and>
               map minHeight (cols (snd (equalizeModule layout m))) = map (\<lambda>c. []) (cols m)
          else (let measure = (if equalize_mode m = ''left'' then l else r);
                    stretch = (if equalize_mode m = ''left'' then r else l);
                    x = layout (cols (clearHeights m)) measure;
                    h = Math_round x
                in fst (equalizeModule layout m) = None \<and>
                   rat_of_int h - 1 / 2 \<le> x \<and> x < rat_of_int h + 1 / 2 \<and>
                   stretch < length (cols m) \<and>
                   map minHeight (cols (snd (equalizeModule layout m))) =
                     (map (\<lambda>c. []) (cols m))
                       [stretch := (if h > 0 then digits (nat h) @ ''px'' else [])]))"
proof -
  note a = singleColumn_iff [of m]
  have b: "data_equalize m = Some ''left'' \<longrightarrow> equalize_mode m = ''left''"
    using equalize_mode_left by blast
  have c: "data_equalize m = None \<or> data_equalize m = Some ''right'' \<longrightarrow>
            equalize_mode m = ''right''"
    using equalize_mode_right by blast
  note d = equalizeModule_result [OF assms, of layout]
  from a b c d show ?thesis
    by (intro conjI)
qed

theorem equalizeModule_postcondition_witness:
  "map minHeight (cols (snd (equalizeModule (\<lambda>cs k. if k = 1 then 601 / 2 else 100)
      \<lparr>data_equalize = None, gridTemplateColumns = ''300px 300px'',
       cols = [\<lparr>col_left = True, col_right = False, minHeight = ''120px''\<rparr>,
               \<lparr>col_left = False, col_right = True, minHeight = []\<rparr>]\<rparr>))) =
     [''301px'', []] \<and>
   map minHeight (cols (snd (equalizeModule (\<lambda>cs k. if k = 1 then 601 / 2 else 100)
      \<lparr>data_equalize = Some ''left'', gridTemplateColumns = ''300px 300px'',
       cols = [\<lparr>col_left = True, col_right = False, minHeight = ''120px''\<rparr>,
               \<lparr>col_left = False, col_right = True, minHeight = []\<rparr>]\<rparr>))) =
     [[], ''100px''] \<and>
   map minHeight (cols (snd (equalizeModule (\<lambda>cs k. if k = 1 then 601 / 2 else 100)
      \<lparr>data_equalize = None, gridTemplateColumns = ''600px'',
       cols = [\<lparr>col_left = True, col_right = False, minHeight = ''120px''\<rparr>,
               \<lparr>col_left = False, col_right = True, minHeight = []\<rparr>]\<rparr>))) =
     [[], []]"
proof -
  let ?cs = "[\<lparr>col_left = True, col_right = False, minHeight = ''120px''\<rparr>,
              \<lparr>col_left = False, col_right = True, minHeight = []\<rparr>]"
  let ?layout = "\<lambda>(cs :: col list) (k :: nat). if k = 1 then 601 / 2 else (100 :: rat)"
  let ?m1 = "\<lparr>data_equalize = None, gridTemplateColumns = ''300px 300px'', cols = ?cs\<rparr>"
  let ?m2 = "\<lparr>data_equalize = Some ''left'', gridTemplateColumns = ''300px 300px'', cols = ?cs\<rparr>"
  let ?m3 = "\<lparr>data_equalize = None, gridTemplateColumns = ''600px'', cols = ?cs\<rparr>"
  have l: "querySelector col_left ?cs = Some 0"
    by code_simp
  have r: "querySelector col_right ?cs = Some 1"
    by code_simp
  have h: "Math_round (601 / 2) = 301" "Math_round 100 = 100"
    by code_simp+
  have d: "digits 301 = ''301''" "digits 100 = ''100''"
    by code_simp+
  have T1: "querySelector col_left (cols ?m1) = Some 0" "querySelector col_right (cols ?m1) = Some 1"
    using l r by simp_all
  have T2: "querySelector col_left (cols ?m2) = Some 0" "querySelector col_right (cols ?m2) = Some 1"
    using l r by simp_all
  have T3: "querySelector col_left (cols ?m3) = Some 0" "querySelector col_right (cols ?m3) = Some 1"
    using l r by simp_all
  note P1 = equalizeModule_postcondition [OF T1, of ?layout]
  note P2 = equalizeModule_postcondition [OF T2, of ?layout]
  note P3 = equalizeModule_postcondition [OF T3, of ?layout]
  have s1: "\<not> singleColumn ?m1" and e1: "equalize_mode ?m1 = ''right''"
    using P1 by simp_all
  have s2: "\<not> singleColumn ?m2" and e2: "equalize_mode ?m2 = ''left''"
    using P2 by simp_all
  have s3: "singleColumn ?m3"
    using P3 by simp
  have a: "map minHeight (cols (snd (equalizeModule ?layout ?m1))) = [''301px'', []]"
    using P1 by (simp add: s1 e1 h d Let_def clearHeights_def)
  have b: "map minHeight (cols (snd (equalizeModule ?layout ?m2))) = [[], ''100px'']"
    using P2 by (simp add: s2 e2 h d Let_def clearHeights_def)
  have c: "map minHeight (cols (snd (equalizeModule ?layout ?m3))) = [[], []]"
    using P3 by (simp add: s3)
  from a b c show ?thesis by simp
qed

section \<open>Theme toggle\<close>

lemmas theme_defs =
  applyTheme_script_def applyTheme_part_def click_script_def click_part_def
  change_part_def touchend_part_def init_script_def init_part_def initial_script_def
  getInitialTheme_def getItem_def setItem_def removeItem_def pulseTrack_def pulse_timeout_def
  dispatch_script_def dispatch_part_def system_theme_def String_of_bool_def
  STORAGE_KEY_script_def STORAGE_KEY_part_def stored_choice_def

text \<open>
  C3, as the code has it. When the page has the button: \<^verbatim>\<open>script.js\<close> applies the stored
  preference when the store can be read and holds exactly "light" or "dark", and "light"
  in every other case (nothing stored, another text stored, the store throwing); it never
  asks the system. The second file, when the store can be read, applies the stored
  preference when it is exactly "light" or "dark" and the system's colour scheme
  otherwise.
\<close>

theorem initial_theme_resolution:
  assumes "has_btn p"
  shows "fst (init_script p) = None \<and>
         data_theme (snd (init_script p)) =
           Some (case (if getItem_throws (storage p) then None
                       else stored_choice (storage p) STORAGE_KEY_script) of
                   Some s \<Rightarrow> s | None \<Rightarrow> ''light'') \<and>
         (\<not> getItem_throws (storage p) \<longrightarrow>
            fst (init_part p) = None \<and>
            data_theme (snd (init_part p)) =
              Some (case stored_choice (storage p) STORAGE_KEY_part of
                      Some s \<Rightarrow> s | None \<Rightarrow> system_theme (mql_matches p)))"
  using assms
  by (auto simp: theme_defs Let_def split: option.splits)


theorem initial_theme_resolution_witness:
  "data_theme (snd (init_part (blank_page\<lparr>mql_matches := True\<rparr>))) = Some ''dark'' \<and>
   data_theme (snd (init_script (blank_page\<lparr>mql_matches := True\<rparr>))) = Some ''light''"
proof -
  have b: "has_btn (blank_page\<lparr>mql_matches := True\<rparr>)"
    by (simp add: blank_page_def)
  show ?thesis
    using initial_theme_resolution [OF b]
    by (simp add: blank_page_def stored_choice_def system_theme_def)
qed

text \<open>
  C3 as stated fails on \<^verbatim>\<open>script.js\<close>: with nothing stored and a system that prefers
  dark, the theme applied at initialisation is "light".
\<close>

theorem script_initial_theme_ignores_system:
  "data_theme (snd (init_script (blank_page\<lparr>mql_matches := True\<rparr>))) \<noteq>
     Some (system_theme (mql_matches (blank_page\<lparr>mql_matches := True\<rparr>)))"
  by (simp add: theme_defs blank_page_def)

lemma click_script_catches:
  "fst (click_script p) = None \<and>
   data_theme (snd (click_script p)) =
     Some (if data_theme p = Some ''dark'' then ''light'' else ''dark'') \<and>
   aria_pressed (snd (click_script p)) =
     Some (String_of_bool (data_theme p \<noteq> Some ''dark''))"
  by (simp add: click_script_def applyTheme_script_def setItem_def pulseTrack_def Let_def
      String_of_bool_def)

text \<open>
  C5. In the second file \<^verbatim>\<open>applyTheme\<close> calls \<^verbatim>\<open>setItem\<close> outside any \<^verbatim>\<open>try\<close>. On a
  page initialised to "light" whose store refuses writes, a click on the button changes
  the displayed theme to "dark" and the storage exception escapes the click handler.
  (\<open>click_script_catches\<close> above: the handler of \<^verbatim>\<open>script.js\<close> never lets one escape.)
\<close>

theorem click_part_storage_failure_escapes:
  "fst (dispatch_part Click
      (snd (init_part (blank_page\<lparr>storage := (storage blank_page)\<lparr>setItem_throws := True\<rparr>\<rparr>))))
     = Some StorageError \<and>
   data_theme (snd (dispatch_part Click
      (snd (init_part (blank_page\<lparr>storage := (storage blank_page)\<lparr>setItem_throws := True\<rparr>\<rparr>)))))
     = Some ''dark''"
  by (simp add: theme_defs blank_page_def)

lemma change_follows:
  assumes "listening p" and "mql_has_addEventListener p" and "\<not> getItem_throws (storage p)"
      and "items (storage p) STORAGE_KEY_part = None"
  shows "dispatch_part (SystemChange b) p =
           (None, p\<lparr>mql_matches := b, data_theme := Some (system_theme b), body_is_dark := b,
                    aria_pressed := Some (String_of_bool b), btn_is_on := b\<rparr>)"
  using assms
  by (simp add: dispatch_part_def change_part_def getItem_def applyTheme_part_def
      system_theme_def Let_def)

lemma change_ignored:
  assumes "\<not> getItem_throws (storage p)" and "items (storage p) STORAGE_KEY_part \<noteq> None"
  shows "dispatch_part (SystemChange b) p = (None, p\<lparr>mql_matches := b\<rparr>)"
  using assms
  by (auto simp: dispatch_part_def change_part_def getItem_def)

lemma run_part_follows:
  assumes "listening p" and "mql_has_addEventListener p" and "\<not> getItem_throws (storage p)"
      and "items (storage p) STORAGE_KEY_part = None"
  shows "displayed (run_part p (map SystemChange (bs @ [b]))) =
           (Some (system_theme b), b, Some (String_of_bool b), b)"
  using assms
proof (induction bs arbitrary: p)
  case Nil
  then show ?case
    by (simp add: change_follows displayed_def)
next
  case (Cons a bs)
  let ?p = "snd (dispatch_part (SystemChange a) p)"
  have "listening ?p" "mql_has_addEventListener ?p" "\<not> getItem_throws (storage ?p)"
       "items (storage ?p) STORAGE_KEY_part = None"
    using Cons.prems by (simp_all add: change_follows)
  from Cons.IH [OF this] show ?case
    by simp
qed

lemma run_part_ignores:
  assumes "\<not> getItem_throws (storage p)" and "items (storage p) STORAGE_KEY_part \<noteq> None"
  shows "displayed (run_part p (map SystemChange bs)) = displayed p"
  using assms
proof (induction bs arbitrary: p)
  case Nil
  then show ?case by simp
next
  case (Cons a bs)
  let ?p = "snd (dispatch_part (SystemChange a) p)"
  have p: "?p = p\<lparr>mql_matches := a\<rparr>"
    using Cons.prems by (simp add: change_ignored)
  have "\<not> getItem_throws (storage ?p)" "items (storage ?p) STORAGE_KEY_part \<noteq> None"
    using Cons.prems by (simp_all add: p)
  from Cons.IH [OF this] show ?case
    by (simp add: p displayed_def)
qed

lemma run_script_ignores:
  "displayed (run_script p (map SystemChange bs)) = displayed p"
  by (induction bs arbitrary: p) (simp_all add: dispatch_script_def displayed_def)

lemma click_part_stores:
  assumes "listening p" and "\<not> setItem_throws (storage p)"
  shows "stored_choice (storage (snd (dispatch_part Click p))) STORAGE_KEY_part \<noteq> None \<and>
         getItem_throws (storage (snd (dispatch_part Click p))) = getItem_throws (storage p)"
  using assms
  by (simp add: dispatch_part_def click_part_def applyTheme_part_def setItem_def Let_def
      stored_choice_def)

lemma stored_choice_items: "stored_choice ls k \<noteq> None \<Longrightarrow> items ls k \<noteq> None"
  by (auto simp: stored_choice_def split: option.splits)

text \<open>
  C6, as the code has it. In the second file, with the listener of the media query
  registered and a store that can be read: while nothing is stored under the key, after
  every change of the system's colour scheme the page displays the theme of the new
  scheme; while a preference ("light" or "dark") is stored under the key, changes of the
  system's colour scheme leave what is displayed as it is, and a preference is stored
  after a click whose write succeeded. In \<^verbatim>\<open>script.js\<close> no change of the system's colour
  scheme changes what is displayed.
\<close>

theorem system_preference_following:
  assumes "listening p" and "mql_has_addEventListener p" and "\<not> getItem_throws (storage p)"
  shows "(items (storage p) STORAGE_KEY_part = None \<longrightarrow>
            displayed (run_part p (map SystemChange (bs @ [b]))) =
              (Some (system_theme b), b, Some (String_of_bool b), b)) \<and>
         (stored_choice (storage p) STORAGE_KEY_part \<noteq> None \<longrightarrow>
            displayed (run_part p (map SystemChange bs)) = displayed p) \<and>
         (\<not> setItem_throws (storage p) \<longrightarrow>
            stored_choice (storage (snd (dispatch_part Click p))) STORAGE_KEY_part \<noteq> None \<and>
            displayed (run_part (snd (dispatch_part Click p)) (map SystemChange bs)) =
              displayed (snd (dispatch_part Click p))) \<and>
         displayed (run_script p (map SystemChange bs)) = displayed p"
proof -
  have 1: "displayed (run_part p (map SystemChange (bs @ [b]))) =
              (Some (system_theme b), b, Some (String_of_bool b), b)"
    if "items (storage p) STORAGE_KEY_part = None"
    using assms that by (rule run_part_follows)
  have 2: "displayed (run_part p (map SystemChange bs)) = displayed p"
    if "stored_choice (storage p) STORAGE_KEY_part \<noteq> None"
    using assms(3) stored_choice_items [OF that] by (rule run_part_ignores)
  have 3: "stored_choice (storage (snd (dispatch_part Click p))) STORAGE_KEY_part \<noteq> None \<and>
            displayed (run_part (snd (dispatch_part Click p)) (map SystemChange bs)) =
              displayed (snd (dispatch_part Click p))"
    if w: "\<not> setItem_throws (storage p)"
  proof -
    note c = click_part_stores [OF assms(1) w]
    have g: "\<not> getItem_throws (storage (snd (dispatch_part Click p)))"
      using c assms(3) by simp
    have i: "items (storage (snd (dispatch_part Click p))) STORAGE_KEY_part \<noteq> None"
      using c stored_choice_items by blast
    show ?thesis
      using c run_part_ignores [OF g i] by simp
  qed
  show ?thesis
    using 1 2 3 run_script_ignores by blast
qed

theorem system_preference_following_witness:
  "displayed (run_part (snd (init_part blank_page)) (map SystemChange ([True, False] @ [True]))) =
     (Some ''dark'', True, Some ''true'', True) \<and>
   displayed (run_part (snd (dispatch_part Click (snd (init_part blank_page))))
       (map SystemChange [False, True])) =
     (Some ''dark'', True, Some ''true'', True) \<and>
   displayed (run_part
       (snd (init_part (blank_page\<lparr>storage := (storage blank_page)
               \<lparr>items := [''site:theme'' \<mapsto> ''dark'']\<rparr>\<rparr>)))
       (map SystemChange [False, True, False])) =
     (Some ''dark'', True, Some ''true'', True)"
proof -
  let ?p = "snd (init_part blank_page)"
  let ?q = "snd (init_part (blank_page\<lparr>storage := (storage blank_page)
               \<lparr>items := [''site:theme'' \<mapsto> ''dark'']\<rparr>\<rparr>))"
  have h: "listening ?p" "mql_has_addEventListener ?p" "\<not> getItem_throws (storage ?p)"
    by (simp_all add: theme_defs blank_page_def)
  have e: "items (storage ?p) STORAGE_KEY_part = None" "\<not> setItem_throws (storage ?p)"
    by (simp_all add: theme_defs blank_page_def)
  have c: "displayed (snd (dispatch_part Click ?p)) = (Some ''dark'', True, Some ''true'', True)"
    by (simp add: theme_defs blank_page_def displayed_def Let_def)
  have hq: "listening ?q" "mql_has_addEventListener ?q" "\<not> getItem_throws (storage ?q)"
    by (simp_all add: theme_defs blank_page_def Let_def)
  have eq: "stored_choice (storage ?q) STORAGE_KEY_part \<noteq> None"
    "displayed ?q = (Some ''dark'', True, Some ''true'', True)"
    by (simp_all add: theme_defs blank_page_def displayed_def Let_def)
  have a1: "displayed (run_part ?p (map SystemChange ([True, False] @ [True]))) =
     (Some ''dark'', True, Some ''true'', True)"
    using system_preference_following [OF h, where bs = "[True, False]" and b = True] e
    by (simp add: system_theme_def String_of_bool_def)
  have a2: "displayed (run_part (snd (dispatch_part Click ?p)) (map SystemChange [False, True])) =
     (Some ''dark'', True, Some ''true'', True)"
    using system_preference_following [OF h, where bs = "[False, True]" and b = True] e c
    by simp
  have a3: "displayed (run_part ?q (map SystemChange [False, True, False])) =
     (Some ''dark'', True, Some ''true'', True)"
    using system_preference_following [OF hq, where bs = "[False, True, False]" and b = True] eq
    by simp
  from a1 a2 a3 show ?thesis by simp
qed

text \<open>
  C6 as stated fails twice. In \<^verbatim>\<open>script.js\<close>, with nothing ever stored, the system turning
  to dark leaves the theme "light". In the second file, after one click (theme "dark",
  stored) a double tap removes the stored preference and shows the system's "light";
  the system turning to dark afterwards is followed, not ignored.
\<close>

theorem system_preference_counterexample:
  "displayed (run_script (snd (init_script blank_page)) [SystemChange True]) =
     (Some ''light'', False, Some ''false'', False) \<and>
   displayed (run_part (snd (init_part blank_page))
       [Click, TouchEnd 1000000, TouchEnd 1000100]) =
     (Some ''light'', False, Some ''false'', False) \<and>
   displayed (run_part (snd (init_part blank_page))
       [Click, TouchEnd 1000000, TouchEnd 1000100, SystemChange True]) =
     (Some ''dark'', True, Some ''true'', True)"
  by code_simp



lemma init_gives_theme:
  assumes "has_btn p"
  shows "listening (snd (init_script p)) \<and>
         (data_theme (snd (init_script p)) = Some ''light'' \<or>
          data_theme (snd (init_script p)) = Some ''dark'')"
    and "fst (init_part p) = None \<Longrightarrow>
         listening (snd (init_part p)) \<and>
         (data_theme (snd (init_part p)) = Some ''light'' \<or>
          data_theme (snd (init_part p)) = Some ''dark'')"
  using assms
  by (auto simp: theme_defs Let_def split: option.splits if_splits)



lemma touchend_part_keeps:
  assumes "listening p"
  shows "listening (snd (dispatch_part (TouchEnd t) p)) \<and>
         mql_matches (snd (dispatch_part (TouchEnd t) p)) = mql_matches p \<and>
         mql_has_addEventListener (snd (dispatch_part (TouchEnd t) p)) = mql_has_addEventListener p \<and>
         getItem_throws (storage (snd (dispatch_part (TouchEnd t) p))) = getItem_throws (storage p) \<and>
         removeItem_throws (storage (snd (dispatch_part (TouchEnd t) p))) = removeItem_throws (storage p) \<and>
         (\<not> removeItem_throws (storage p) \<longrightarrow> lastTap (snd (dispatch_part (TouchEnd t) p)) = t)"
  using assms
  by (simp add: dispatch_part_def touchend_part_def removeItem_def applyTheme_part_def Let_def)

lemma touchend_part_clears:
  assumes "listening p" and "\<not> removeItem_throws (storage p)" and "t - lastTap p < 350"
  shows "fst (dispatch_part (TouchEnd t) p) = None \<and>
         items (storage (snd (dispatch_part (TouchEnd t) p))) STORAGE_KEY_part = None \<and>
         displayed (snd (dispatch_part (TouchEnd t) p)) =
           (Some (system_theme (mql_matches p)), mql_matches p,
            Some (String_of_bool (mql_matches p)), mql_matches p)"
  using assms
  by (simp add: dispatch_part_def touchend_part_def removeItem_def applyTheme_part_def Let_def
      displayed_def system_theme_def)

text \<open>
  C10. In the second file, two \<^verbatim>\<open>touchend\<close> events on the button less than 350 ms apart
  (on a store that allows removal): the second handler returns normally, nothing is stored
  under the key afterwards, and the page displays the theme of the system's current
  colour scheme. When the media query's listener is registered and the store can be read,
  every later change of the system's colour scheme is followed again.
\<close>

theorem double_tap_reverts_to_system:
  assumes "listening p" and "\<not> removeItem_throws (storage p)" and "t2 - t1 < 350"
  shows "fst (dispatch_part (TouchEnd t2) (snd (dispatch_part (TouchEnd t1) p))) = None \<and>
         items (storage (run_part p [TouchEnd t1, TouchEnd t2])) STORAGE_KEY_part = None \<and>
         displayed (run_part p [TouchEnd t1, TouchEnd t2]) =
           (Some (system_theme (mql_matches p)), mql_matches p,
            Some (String_of_bool (mql_matches p)), mql_matches p) \<and>
         (mql_has_addEventListener p \<and> \<not> getItem_throws (storage p) \<longrightarrow>
            displayed (run_part p ([TouchEnd t1, TouchEnd t2] @ map SystemChange (bs @ [b]))) =
              (Some (system_theme b), b, Some (String_of_bool b), b))"
proof -
  let ?p1 = "snd (dispatch_part (TouchEnd t1) p)"
  let ?p2 = "snd (dispatch_part (TouchEnd t2) ?p1)"
  note k1 = touchend_part_keeps [OF assms(1), of t1]
  then have l1: "listening ?p1" and r1: "\<not> removeItem_throws (storage ?p1)"
    and d1: "t2 - lastTap ?p1 < 350"
    using assms(2,3) by simp_all
  note c2 = touchend_part_clears [OF l1 r1 d1]
  note k2 = touchend_part_keeps [OF l1, of t2]
  have run: "run_part p [TouchEnd t1, TouchEnd t2] = ?p2"
    by simp
  have follow: "displayed (run_part p ([TouchEnd t1, TouchEnd t2] @ map SystemChange (bs @ [b]))) =
              (Some (system_theme b), b, Some (String_of_bool b), b)"
    if "mql_has_addEventListener p \<and> \<not> getItem_throws (storage p)"
  proof -
    have "listening ?p2" "mql_has_addEventListener ?p2" "\<not> getItem_throws (storage ?p2)"
         "items (storage ?p2) STORAGE_KEY_part = None"
      using k1 k2 c2 that by simp_all
    from run_part_follows [OF this, of bs b] show ?thesis
      by simp
  qed
  show ?thesis
    unfolding run using c2 k1 follow by simp
qed

theorem double_tap_reverts_to_system_witness:
  "items (storage (run_part (snd (dispatch_part Click (snd (init_part blank_page))))
      [TouchEnd 1000000, TouchEnd 1000200])) STORAGE_KEY_part = None \<and>
   displayed (run_part (snd (dispatch_part Click (snd (init_part blank_page))))
      [TouchEnd 1000000, TouchEnd 1000200]) = (Some ''light'', False, Some ''false'', False) \<and>
   items (storage (snd (dispatch_part Click (snd (init_part blank_page))))) STORAGE_KEY_part
     = Some ''dark''"
proof -
  let ?p = "snd (dispatch_part Click (snd (init_part blank_page)))"
  have h: "listening ?p" "\<not> removeItem_throws (storage ?p)" "(1000200::int) - 1000000 < 350"
    by (simp_all add: theme_defs blank_page_def Let_def)
  have m: "mql_matches ?p = False"
     "items (storage ?p) STORAGE_KEY_part = Some ''dark''"
    by (simp_all add: theme_defs blank_page_def Let_def)
  show ?thesis
    using double_tap_reverts_to_system [OF h] m
    by (simp add: system_theme_def String_of_bool_def)
qed

section \<open>Hover and focus spotlight\<close>

lemmas hover_defs =
  hover_init_def hover_step_def mouseenter_def reset_def clearTimeout_def reveal_def
  keydown_def focusin_def focusout_def

text \<open>
  C1. \<^verbatim>\<open>mouseenter\<close> overwrites \<^verbatim>\<open>timer\<close> without clearing the timeout it held. The
  pointer enters card 0, then card 1 (a card inside card 0), and leaves both before the
  delay has elapsed: the timeout of card 0 is still pending after both leaves, and when
  the browser runs it, card 0 is spotlighted and the page dimmed.
  (\<open>enter_leave_pairs_never_reveal\<close> below: when every entry is followed by the leave of
  the same card before the next entry, no timeout stays behind.)
\<close>

theorem hover_stacked_timeout_survives_leave:
  "timeouts (hover_run (hover_init [0, 1])
      [MouseEnter 0, MouseEnter 1, MouseLeave 1, MouseLeave 0]) = [(0, 0)] \<and>
   active (hover_run (hover_init [0, 1])
      [MouseEnter 0, MouseEnter 1, MouseLeave 1, MouseLeave 0, TimerFire 0]) = {0} \<and>
   dim_mode (hover_run (hover_init [0, 1])
      [MouseEnter 0, MouseEnter 1, MouseLeave 1, MouseLeave 0, TimerFire 0])"
  by (simp add: hover_defs)

text \<open>
  C2. The \<^verbatim>\<open>focusin\<close> handler adds the classes to its card and clears no other card. Card 0
  is hovered until its reveal runs, then the keyboard focus enters card 1: cards 0 and 1
  are both active. (\<open>reveal_single_active\<close> below: the reveal of the hover block does
  leave exactly one card active.)
\<close>

theorem focus_leaves_hovered_card_active:
  "active (hover_run (hover_init [0, 1]) [MouseEnter 0, TimerFire 0]) = {0} \<and>
   active (hover_run (hover_init [0, 1]) [MouseEnter 0, TimerFire 0, FocusIn 1]) = {0, 1}"
  by (simp add: hover_defs insert_commute)

lemma reveal_single_active:
  "active p \<subseteq> set (cards p) \<Longrightarrow> active (reveal c p) = {c}"
  by (auto simp: reveal_def)

lemma enter_leave_cancels:
  assumes "c \<in> set (cards p)" and "fresh_handles p"
  shows "hover_run p [MouseEnter c, MouseLeave c] =
           p\<lparr>timer := None, next_handle := Suc (next_handle p), active := active p - {c},
             show_caption := show_caption p - {c}, dim_mode := False\<rparr>"
proof -
  have "filter (\<lambda>x. fst x \<noteq> next_handle p) (timeouts p) = timeouts p"
    using assms(2) by (auto simp: fresh_handles_def list_all_iff filter_id_conv)
  then show ?thesis
    using assms(1) by (simp add: hover_step_def mouseenter_def reset_def clearTimeout_def)
qed

lemma enter_leave_pairs_never_reveal:
  assumes "set xs \<subseteq> set (cards p)" and "fresh_handles p"
  shows "timeouts (hover_run p (concat (map (\<lambda>c. [MouseEnter c, MouseLeave c]) xs))) = timeouts p \<and>
         active (hover_run p (concat (map (\<lambda>c. [MouseEnter c, MouseLeave c]) xs))) \<subseteq> active p"
  using assms
proof (induction xs arbitrary: p)
  case Nil
  then show ?case by simp
next
  case (Cons c xs)
  let ?p = "hover_run p [MouseEnter c, MouseLeave c]"
  have c: "c \<in> set (cards p)" using Cons.prems(1) by simp
  note e = enter_leave_cancels [OF c Cons.prems(2)]
  have f: "fresh_handles ?p"
    using Cons.prems(2) unfolding e by (auto simp: fresh_handles_def list_all_iff)
  have s: "set xs \<subseteq> set (cards ?p)"
    using Cons.prems(1) unfolding e by simp
  have r: "hover_run p (concat (map (\<lambda>c. [MouseEnter c, MouseLeave c]) (c # xs))) =
           hover_run ?p (concat (map (\<lambda>c. [MouseEnter c, MouseLeave c]) xs))"
    by simp
  have t: "timeouts ?p = timeouts p" and a: "active ?p \<subseteq> active p"
    unfolding e by auto
  show ?case
    unfolding r using Cons.IH [OF s f] t a by auto
qed

end
